theory Spec2Isabelle
  imports Main "HOL-Library.Word" "HOL-Library.Sublist"
begin

section \<open>Bytes, status codes and exceptions\<close>

text \<open>
  A shallow embedding of \<^verbatim>\<open>securetransport/tlsapi.py\<close> (the staging buffers, the
  engine callbacks, the buffer-shaped wrapper and the socket-shaped wrapper) and of
  \<^verbatim>\<open>TLSConfiguration\<close> in \<^verbatim>\<open>securetransport/tls.py\<close>.

  Python \<^verbatim>\<open>bytes\<close>/\<^verbatim>\<open>bytearray\<close> values are lists of octets. Lengths are byte
  counts: the engine hands the read callback a \<^verbatim>\<open>size_t\<close> (see \<^verbatim>\<open>SSLReadFunc\<close> in
  \<^verbatim>\<open>build.py\<close>), \<^verbatim>\<open>socket.send\<close> returns a count, and the adapter only ever
  passes the literal 8192; they are natural numbers here, so that the slice
  \<^verbatim>\<open>buf[:n]\<close> is \<open>take n buf\<close> and \<^verbatim>\<open>del buf[:n]\<close> leaves \<open>drop n buf\<close>.
\<close>

type_synonym bytes = "8 word list"

text \<open>\<^verbatim>\<open>errSSLWouldBlock = -9803\<close> in the error enum of \<^verbatim>\<open>build.py\<close>.\<close>

definition errSSLWouldBlock :: int where
  "errSSLWouldBlock = - 9803"

text \<open>What a socket call may raise (the adapter never inspects it).\<close>

datatype socket_error = BlockingIOError | TimeoutError | ConnectionResetError

text \<open>The exceptions that leave the two wrappers.\<close>

datatype exn =
    WantReadError
  | WantWriteError
  | SecureTransportError int
  | AssertionError
  | OSError socket_error

section \<open>The TLS engine as a client of the two callbacks\<close>

text \<open>
  \<^verbatim>\<open>SSLSessionContext\<close> lives in the \<^verbatim>\<open>low_level\<close> module and is a parameter of
  the model. All it can do to the staging buffers is call the two functions registered
  by \<^verbatim>\<open>set_io_funcs(self._read_func, self._write_func)\<close>. One engine operation is
  therefore a program over these two calls: it asks to read \<open>n\<close> bytes and continues
  with the status and the bytes it got, or hands over bytes to write and continues with
  the status and the count, or finishes.
\<close>

datatype 'a io_prog =
    Finish 'a
  | CallRead nat "int \<times> bytes \<Rightarrow> 'a io_prog"
  | CallWrite bytes "int \<times> nat \<Rightarrow> 'a io_prog"

text \<open>
  An engine operation returns, raises \<^verbatim>\<open>WouldBlockError\<close>, or raises another
  \<^verbatim>\<open>SecureTransportError\<close> carrying a status code.
\<close>

datatype 'a engine_outcome = Returned 'a | RaisedWouldBlock | RaisedOther int

text \<open>The four operations the wrappers call, over an engine state \<open>'e\<close>.\<close>

record 'e engine =
  eng_handshake :: "'e \<Rightarrow> (unit engine_outcome \<times> 'e) io_prog"
  eng_read :: "'e \<Rightarrow> int \<Rightarrow> (bytes engine_outcome \<times> 'e) io_prog"
  eng_write :: "'e \<Rightarrow> bytes \<Rightarrow> (nat engine_outcome \<times> 'e) io_prog"
  eng_close :: "'e \<Rightarrow> (unit engine_outcome \<times> 'e) io_prog"

section \<open>\<^verbatim>\<open>_SecureTransportBuffer\<close>\<close>

record 'e SecureTransportBuffer =
  st_context :: 'e
  receive_buffer :: bytes
  send_buffer :: bytes

text \<open>
  \<^verbatim>\<open>_read_func(self, _, to_read)\<close>: the leading slice of the receive buffer is
  returned and deleted; the status is \<^verbatim>\<open>errSSLWouldBlock\<close> when the slice is shorter
  than asked, and 0 otherwise.
\<close>

definition read_func ::
  "'e SecureTransportBuffer \<Rightarrow> nat \<Rightarrow> (int \<times> bytes) \<times> 'e SecureTransportBuffer" where
  "read_func self to_read =
     (let output_data = take to_read (receive_buffer self);
          self' = self\<lparr>receive_buffer := drop to_read (receive_buffer self)\<rparr>;
          rc = (if length output_data < to_read then errSSLWouldBlock else 0)
      in ((rc, output_data), self'))"

text \<open>\<^verbatim>\<open>_write_func(self, _, data)\<close>: appends to the send buffer, never blocks.\<close>

definition write_func ::
  "'e SecureTransportBuffer \<Rightarrow> bytes \<Rightarrow> (int \<times> nat) \<times> 'e SecureTransportBuffer" where
  "write_func self data =
     ((0, length data), self\<lparr>send_buffer := send_buffer self @ data\<rparr>)"

definition receive_bytes_from_network ::
  "'e SecureTransportBuffer \<Rightarrow> bytes \<Rightarrow> 'e SecureTransportBuffer" where
  "receive_bytes_from_network self bs =
     self\<lparr>receive_buffer := receive_buffer self @ bs\<rparr>"

definition peek_bytes :: "'e SecureTransportBuffer \<Rightarrow> nat \<Rightarrow> bytes" where
  "peek_bytes self len = take len (send_buffer self)"

definition consume_bytes ::
  "'e SecureTransportBuffer \<Rightarrow> nat \<Rightarrow> 'e SecureTransportBuffer" where
  "consume_bytes self len = self\<lparr>send_buffer := drop len (send_buffer self)\<rparr>"

text \<open>Running one engine operation against the buffers, callback by callback.\<close>

primrec run_io ::
  "'a io_prog \<Rightarrow> 'e SecureTransportBuffer \<Rightarrow> 'a \<times> 'e SecureTransportBuffer" where
  "run_io (Finish a) self = (a, self)"
| "run_io (CallRead n k) self =
     (case read_func self n of (r, self') \<Rightarrow> run_io (k r) self')"
| "run_io (CallWrite d k) self =
     (case write_func self d of (r, self') \<Rightarrow> run_io (k r) self')"

text \<open>
  \<^verbatim>\<open>self._st_context.op(...)\<close>: the operation runs from the current engine state and
  leaves the engine in its next state.
\<close>

definition call_engine ::
  "('e \<Rightarrow> ('a engine_outcome \<times> 'e) io_prog) \<Rightarrow> 'e SecureTransportBuffer
     \<Rightarrow> 'a engine_outcome \<times> 'e SecureTransportBuffer" where
  "call_engine op self =
     (case run_io (op (st_context self)) self of
        ((res, e'), self') \<Rightarrow> (res, self'\<lparr>st_context := e'\<rparr>))"

text \<open>
  The \<^verbatim>\<open>except WouldBlockError\<close> clause shared by \<^verbatim>\<open>do_handshake\<close> and
  \<^verbatim>\<open>shutdown\<close>: \<^verbatim>\<open>if self._send_buffer: raise WantWriteError else: raise WantReadError\<close>.
\<close>

definition would_block_signal :: "'e SecureTransportBuffer \<Rightarrow> exn" where
  "would_block_signal self =
     (if send_buffer self \<noteq> [] then WantWriteError else WantReadError)"

definition Buffer_do_handshake ::
  "'e engine \<Rightarrow> 'e SecureTransportBuffer \<Rightarrow> (exn + unit) \<times> 'e SecureTransportBuffer" where
  "Buffer_do_handshake E self =
     (case call_engine (eng_handshake E) self of
        (Returned u, self') \<Rightarrow> (Inr (), self')
      | (RaisedWouldBlock, self') \<Rightarrow> (Inl (would_block_signal self'), self')
      | (RaisedOther c, self') \<Rightarrow> (Inl (SecureTransportError c), self'))"

definition Buffer_shutdown ::
  "'e engine \<Rightarrow> 'e SecureTransportBuffer \<Rightarrow> (exn + unit) \<times> 'e SecureTransportBuffer" where
  "Buffer_shutdown E self =
     (case call_engine (eng_close E) self of
        (Returned u, self') \<Rightarrow> (Inr (), self')
      | (RaisedWouldBlock, self') \<Rightarrow> (Inl (would_block_signal self'), self')
      | (RaisedOther c, self') \<Rightarrow> (Inl (SecureTransportError c), self'))"

text \<open>
  \<^verbatim>\<open>read(self, amt=None)\<close>: \<^verbatim>\<open>assert amt is not None\<close>, then the engine's read;
  a would-block of the engine is always reported as \<^verbatim>\<open>WantReadError\<close>.
\<close>

definition Buffer_read ::
  "'e engine \<Rightarrow> 'e SecureTransportBuffer \<Rightarrow> int option
     \<Rightarrow> (exn + bytes) \<times> 'e SecureTransportBuffer" where
  "Buffer_read E self amt =
     (case amt of
        None \<Rightarrow> (Inl AssertionError, self)
      | Some n \<Rightarrow>
          (case call_engine (\<lambda>e. eng_read E e n) self of
             (Returned data, self') \<Rightarrow> (Inr data, self')
           | (RaisedWouldBlock, self') \<Rightarrow> (Inl WantReadError, self')
           | (RaisedOther c, self') \<Rightarrow> (Inl (SecureTransportError c), self')))"

definition Buffer_write ::
  "'e engine \<Rightarrow> 'e SecureTransportBuffer \<Rightarrow> bytes
     \<Rightarrow> (exn + nat) \<times> 'e SecureTransportBuffer" where
  "Buffer_write E self buf =
     (case call_engine (\<lambda>e. eng_write E e buf) self of
        (Returned n, self') \<Rightarrow> (Inr n, self')
      | (RaisedWouldBlock, self') \<Rightarrow> (Inl WantWriteError, self')
      | (RaisedOther c, self') \<Rightarrow> (Inl (SecureTransportError c), self'))"

section \<open>The ingress buffer as a queue\<close>

text \<open>
  A history of the ingress buffer: bytes arriving from the network
  (\<^verbatim>\<open>receive_bytes_from_network\<close>) interleaved with reads of the engine callback.
\<close>

datatype ingress_op = Feed bytes | Take nat

fun fed :: "ingress_op list \<Rightarrow> bytes" where
  "fed [] = []"
| "fed (Feed bs # ops) = bs @ fed ops"
| "fed (Take n # ops) = fed ops"

text \<open>Runs a history; returns the bytes the callback handed out, in order, and the buffer.\<close>

fun ingress_run ::
  "ingress_op list \<Rightarrow> 'e SecureTransportBuffer \<Rightarrow> bytes \<times> 'e SecureTransportBuffer" where
  "ingress_run [] self = ([], self)"
| "ingress_run (Feed bs # ops) self = ingress_run ops (receive_bytes_from_network self bs)"
| "ingress_run (Take n # ops) self =
     (case read_func self n of
        ((rc, out), self') \<Rightarrow>
          (case ingress_run ops self' of (outs, self'') \<Rightarrow> (out @ outs, self'')))"

section \<open>The socket under the wrapper\<close>

text \<open>
  The raw socket is a parameter too: a state \<open>'s\<close> and the four operations the wrapper
  calls on it. \<^verbatim>\<open>gettimeout()\<close> is \<open>None\<close> for a blocking socket. \<^verbatim>\<open>recv\<close> and
  \<^verbatim>\<open>send\<close> return or raise; the comment in \<^verbatim>\<open>do_handshake\<close> reads "If those
  attempts to read raise, they raise": what a socket call raises is not caught and
  reaches the caller of the wrapper.
\<close>

record 's socket_api =
  gettimeout :: "'s \<Rightarrow> int option"
  recv :: "'s \<Rightarrow> nat \<Rightarrow> int \<Rightarrow> (socket_error + bytes) \<times> 's"
  send :: "'s \<Rightarrow> bytes \<Rightarrow> (socket_error + nat) \<times> 's"
  close :: "'s \<Rightarrow> 's"

text \<open>
  To speak about the socket calls of one invocation, any socket can be put behind a
  recorder that appends each call to a log and otherwise behaves as the socket does.
\<close>

datatype socket_call = CalledRecv | CalledSend | CalledClose

definition recording :: "'s socket_api \<Rightarrow> ('s \<times> socket_call list) socket_api" where
  "recording S =
     \<lparr> gettimeout = (\<lambda>(s, log). gettimeout S s),
       recv = (\<lambda>(s, log) n flags.
                 case recv S s n flags of (r, s') \<Rightarrow> (r, (s', log @ [CalledRecv]))),
       send = (\<lambda>(s, log) d.
                 case send S s d of (r, s') \<Rightarrow> (r, (s', log @ [CalledSend]))),
       close = (\<lambda>(s, log). (close S s, log @ [CalledClose])) \<rparr>"

section \<open>\<^verbatim>\<open>WrappedSocket\<close>\<close>

record ('s, 'e) WrappedSocket =
  socket :: 's
  buffer :: "'e SecureTransportBuffer"

text \<open>
  The three lines \<^verbatim>\<open>some_data = self._buffer.peek_bytes(8192)\<close>,
  \<^verbatim>\<open>sent = self._socket.send(some_data)\<close>, \<^verbatim>\<open>self._buffer.consume_bytes(sent)\<close>
  of \<^verbatim>\<open>do_handshake\<close> (and again of \<^verbatim>\<open>unwrap\<close>).
\<close>

definition send_some ::
  "'s socket_api \<Rightarrow> ('s, 'e) WrappedSocket \<Rightarrow> (socket_error + nat) \<times> ('s, 'e) WrappedSocket" where
  "send_some S self =
     (let some_data = peek_bytes (buffer self) 8192
      in case send S (socket self) some_data of
           (Inl err, s') \<Rightarrow> (Inl err, self\<lparr>socket := s'\<rparr>)
         | (Inr sent, s') \<Rightarrow>
             (Inr sent, self\<lparr>socket := s', buffer := consume_bytes (buffer self) sent\<rparr>))"

text \<open>
  \<^verbatim>\<open>do_handshake\<close>: the \<^verbatim>\<open>while True\<close> loop, with the number of iterations it may
  take as fuel; \<open>None\<close> is a loop still running when the fuel is spent.
\<close>

fun do_handshake_loop ::
  "nat \<Rightarrow> 'e engine \<Rightarrow> 's socket_api \<Rightarrow> bool \<Rightarrow> bool \<Rightarrow> ('s, 'e) WrappedSocket
     \<Rightarrow> (exn + unit) option \<times> ('s, 'e) WrappedSocket" where
  "do_handshake_loop 0 E S blocking done_io self = (None, self)"
| "do_handshake_loop (Suc fuel) E S blocking done_io self =
     (case Buffer_do_handshake E (buffer self) of
        (Inr u, b') \<Rightarrow> (Some (Inr ()), self\<lparr>buffer := b'\<rparr>)
      | (Inl x, b') \<Rightarrow>
          (if x = WantReadError then
             (if \<not> blocking \<and> done_io then (Some (Inl WantReadError), self\<lparr>buffer := b'\<rparr>)
              else
                (case recv S (socket self) 8192 0 of
                   (Inl err, s') \<Rightarrow> (Some (Inl (OSError err)), self\<lparr>socket := s', buffer := b'\<rparr>)
                 | (Inr data, s') \<Rightarrow>
                     do_handshake_loop fuel E S blocking True
                       (self\<lparr>socket := s', buffer := receive_bytes_from_network b' data\<rparr>)))
           else if x = WantWriteError then
             (if \<not> blocking \<and> done_io then (Some (Inl WantWriteError), self\<lparr>buffer := b'\<rparr>)
              else
                (case send_some S (self\<lparr>buffer := b'\<rparr>) of
                   (Inl err, self') \<Rightarrow> (Some (Inl (OSError err)), self')
                 | (Inr sent, self') \<Rightarrow> do_handshake_loop fuel E S blocking done_io self'))
           else (Some (Inl x), self\<lparr>buffer := b'\<rparr>)))"

definition WrappedSocket_do_handshake ::
  "nat \<Rightarrow> 'e engine \<Rightarrow> 's socket_api \<Rightarrow> ('s, 'e) WrappedSocket
     \<Rightarrow> (exn + unit) option \<times> ('s, 'e) WrappedSocket" where
  "WrappedSocket_do_handshake fuel E S self =
     (let blocking = (gettimeout S (socket self) = None)
      in do_handshake_loop fuel E S blocking False self)"

text \<open>
  \<^verbatim>\<open>recv(self, bufsize, flags=0)\<close>: one read of the buffer wrapper; on
  \<^verbatim>\<open>WantReadError\<close> one receive on the socket, then a second read outside the
  \<^verbatim>\<open>try\<close>.
\<close>

definition WrappedSocket_recv ::
  "'e engine \<Rightarrow> 's socket_api \<Rightarrow> ('s, 'e) WrappedSocket \<Rightarrow> int \<Rightarrow> int
     \<Rightarrow> (exn + bytes) \<times> ('s, 'e) WrappedSocket" where
  "WrappedSocket_recv E S self bufsize flags =
     (case Buffer_read E (buffer self) (Some bufsize) of
        (Inr data, b') \<Rightarrow> (Inr data, self\<lparr>buffer := b'\<rparr>)
      | (Inl x, b') \<Rightarrow>
          (if x = WantReadError then
             (case recv S (socket self) 8192 flags of
                (Inl err, s') \<Rightarrow> (Inl (OSError err), self\<lparr>socket := s', buffer := b'\<rparr>)
              | (Inr data, s') \<Rightarrow>
                  (if data = [] then (Inr [], self\<lparr>socket := s', buffer := b'\<rparr>)
                   else
                     (case Buffer_read E (receive_bytes_from_network b' data) (Some bufsize) of
                        (r, b'') \<Rightarrow> (r, self\<lparr>socket := s', buffer := b''\<rparr>))))
           else (Inl x, self\<lparr>buffer := b'\<rparr>)))"

text \<open>
  \<^verbatim>\<open>unwrap\<close>: \<^verbatim>\<open>self._buffer.shutdown()\<close> outside any \<^verbatim>\<open>try\<close>, then the draining
  loop (fuel as above), then \<^verbatim>\<open>return self._socket\<close>.
\<close>

fun unwrap_loop ::
  "nat \<Rightarrow> 's socket_api \<Rightarrow> ('s, 'e) WrappedSocket
     \<Rightarrow> (exn + unit) option \<times> ('s, 'e) WrappedSocket" where
  "unwrap_loop 0 S self = (None, self)"
| "unwrap_loop (Suc fuel) S self =
     (if peek_bytes (buffer self) 8192 = [] then (Some (Inr ()), self)
      else
        (case send_some S self of
           (Inl err, self') \<Rightarrow> (Some (Inl (OSError err)), self')
         | (Inr sent, self') \<Rightarrow> unwrap_loop fuel S self'))"

definition WrappedSocket_unwrap ::
  "nat \<Rightarrow> 'e engine \<Rightarrow> 's socket_api \<Rightarrow> ('s, 'e) WrappedSocket
     \<Rightarrow> (exn + 's) option \<times> ('s, 'e) WrappedSocket" where
  "WrappedSocket_unwrap fuel E S self =
     (case Buffer_shutdown E (buffer self) of
        (Inl x, b') \<Rightarrow> (Some (Inl x), self\<lparr>buffer := b'\<rparr>)
      | (Inr u, b') \<Rightarrow>
          (case unwrap_loop fuel S (self\<lparr>buffer := b'\<rparr>) of
             (None, self') \<Rightarrow> (None, self')
           | (Some (Inl x), self') \<Rightarrow> (Some (Inl x), self')
           | (Some (Inr u'), self') \<Rightarrow> (Some (Inr (socket self')), self')))"

definition WrappedSocket_close ::
  "nat \<Rightarrow> 'e engine \<Rightarrow> 's socket_api \<Rightarrow> ('s, 'e) WrappedSocket
     \<Rightarrow> (exn + unit) option \<times> ('s, 'e) WrappedSocket" where
  "WrappedSocket_close fuel E S self =
     (case WrappedSocket_unwrap fuel E S self of
        (None, self') \<Rightarrow> (None, self')
      | (Some (Inl x), self') \<Rightarrow> (Some (Inl x), self')
      | (Some (Inr s), self') \<Rightarrow> (Some (Inr ()), self'\<lparr>socket := close S (socket self')\<rparr>))"

section \<open>Concrete engines and sockets\<close>

text \<open>An engine that cannot make progress: every operation would block at once.\<close>

definition stalled_engine :: "unit engine" where
  "stalled_engine =
     \<lparr> eng_handshake = (\<lambda>e. Finish (RaisedWouldBlock, e)),
       eng_read = (\<lambda>e n. Finish (RaisedWouldBlock, e)),
       eng_write = (\<lambda>e d. Finish (RaisedWouldBlock, e)),
       eng_close = (\<lambda>e. Finish (RaisedWouldBlock, e)) \<rparr>"

text \<open>
  An engine working on five-byte records; its state is the part of the current record
  it has already taken from ingress. A handshake needs one record from the peer; a read
  returns one record; a write queues the bytes as they are; closing writes a two-byte
  alert and then waits for the peer's record.
\<close>

definition need_record ::
  "bytes \<Rightarrow> (bytes \<Rightarrow> 'a) \<Rightarrow> ('a engine_outcome \<times> bytes) io_prog" where
  "need_record e f =
     CallRead (5 - length e)
       (\<lambda>(rc, d). if rc = 0 then Finish (Returned (f (e @ d)), [])
                   else Finish (RaisedWouldBlock, e @ d))"

definition record_engine :: "bytes engine" where
  "record_engine =
     \<lparr> eng_handshake = (\<lambda>e. need_record e (\<lambda>r. ())),
       eng_read = (\<lambda>e n. need_record e (\<lambda>r. r)),
       eng_write = (\<lambda>e d. CallWrite d (\<lambda>(rc, n). Finish (Returned n, e))),
       eng_close = (\<lambda>e. CallWrite [21, 1] (\<lambda>(rc, n). need_record e (\<lambda>r. ()))) \<rparr>"

text \<open>
  A scripted socket: the results of its coming \<^verbatim>\<open>recv\<close> calls, how many bytes each
  coming \<^verbatim>\<open>send\<close> accepts, what went out on the wire, and whether it was closed. With
  nothing scripted, \<^verbatim>\<open>recv\<close> raises \<^verbatim>\<open>BlockingIOError\<close> and \<^verbatim>\<open>send\<close> accepts all.
\<close>

record scripted_socket =
  timeout :: "int option"
  incoming :: "(socket_error + bytes) list"
  accepts :: "nat list"
  wire :: bytes
  closed :: bool

definition scripted :: "scripted_socket socket_api" where
  "scripted =
     \<lparr> gettimeout = timeout,
       recv = (\<lambda>s n flags.
                 case incoming s of
                   [] \<Rightarrow> (Inl BlockingIOError, s)
                 | r # rs \<Rightarrow> (map_sum id (take n) r, s\<lparr>incoming := rs\<rparr>)),
       send = (\<lambda>s d.
                 case accepts s of
                   [] \<Rightarrow> (Inr (length d), s\<lparr>wire := wire s @ d\<rparr>)
                 | k # ks \<Rightarrow>
                     (Inr (min k (length d)), s\<lparr>accepts := ks, wire := wire s @ take k d\<rparr>)),
       close = (\<lambda>s. s\<lparr>closed := True\<rparr>) \<rparr>"

section \<open>\<^verbatim>\<open>TLSConfiguration\<close>\<close>

datatype CipherSuite =
    TLS_ECDHE_RSA_WITH_3DES_EDE_CBC_SHA
  | TLS_ECDHE_ECDSA_WITH_AES_128_CCM
  | TLS_ECDHE_ECDSA_WITH_AES_128_GCM_SHA256

datatype NextProtocol = H2 | H2C | HTTP1 | WEBRTC | C_WEBRTC | FTP | STUN | TURN

datatype TLSVersion =
    MINIMUM_SUPPORTED | SSLv2 | SSLv3 | TLSv1 | TLSv1_1 | TLSv1_2 | TLSv1_3
  | MAXIMUM_SUPPORTED

text \<open>
  The named tuple with its eight fields. Every field holds a Python value that may be
  \<^verbatim>\<open>None\<close>, hence an option. Certificate chains, trust stores and callbacks are opaque.
\<close>

record ('cc, 'ts, 'cb) TLSConfiguration =
  validate_certificates :: "bool option"
  certificate_chain :: "'cc option"
  ciphers :: "CipherSuite list option"
  inner_protocols :: "(NextProtocol + bytes) list option"
  lowest_supported_version :: "TLSVersion option"
  highest_supported_version :: "TLSVersion option"
  trust_store :: "'ts option"
  sni_callback :: "'cb option"

text \<open>\<^verbatim>\<open>if x is None: x = d\<close>\<close>

definition or_default :: "'a option \<Rightarrow> 'a \<Rightarrow> 'a option" where
  "or_default x d = (case x of None \<Rightarrow> Some d | Some v \<Rightarrow> Some v)"

text \<open>
  \<^verbatim>\<open>__new__\<close>. \<^verbatim>\<open>DEFAULT_CIPHER_LIST\<close> is used by the source but defined nowhere in
  it, so it is the first argument here.
\<close>

definition TLSConfiguration_new ::
  "CipherSuite list \<Rightarrow> bool option \<Rightarrow> 'cc option \<Rightarrow> CipherSuite list option
     \<Rightarrow> (NextProtocol + bytes) list option \<Rightarrow> TLSVersion option \<Rightarrow> TLSVersion option
     \<Rightarrow> 'ts option \<Rightarrow> 'cb option \<Rightarrow> ('cc, 'ts, 'cb) TLSConfiguration" where
  "TLSConfiguration_new DEFAULT_CIPHER_LIST vc cc ci ip lo hi ts cb =
     \<lparr> validate_certificates = or_default vc True,
       certificate_chain = cc,
       ciphers = or_default ci DEFAULT_CIPHER_LIST,
       inner_protocols = or_default ip [],
       lowest_supported_version = or_default lo TLSv1,
       highest_supported_version = or_default hi MAXIMUM_SUPPORTED,
       trust_store = ts,
       sni_callback = cb \<rparr>"

text \<open>
  An argument of \<^verbatim>\<open>update\<close> is the sentinel \<^verbatim>\<open>_DEFAULT_VALUE\<close> (nothing was
  supplied) or a supplied Python value, which may be \<^verbatim>\<open>None\<close>.
\<close>

datatype 'a arg = DEFAULT_VALUE | Supplied 'a

text \<open>\<^verbatim>\<open>if x is _DEFAULT_VALUE: x = self.x\<close>\<close>

definition or_self :: "'a arg \<Rightarrow> 'a \<Rightarrow> 'a" where
  "or_self x own = (case x of DEFAULT_VALUE \<Rightarrow> own | Supplied v \<Rightarrow> v)"

definition update ::
  "CipherSuite list \<Rightarrow> ('cc, 'ts, 'cb) TLSConfiguration
     \<Rightarrow> bool option arg \<Rightarrow> 'cc option arg \<Rightarrow> CipherSuite list option arg
     \<Rightarrow> (NextProtocol + bytes) list option arg \<Rightarrow> TLSVersion option arg
     \<Rightarrow> TLSVersion option arg \<Rightarrow> 'ts option arg \<Rightarrow> 'cb option arg
     \<Rightarrow> ('cc, 'ts, 'cb) TLSConfiguration" where
  "update DEFAULT_CIPHER_LIST self vc cc ci ip lo hi ts cb =
     TLSConfiguration_new DEFAULT_CIPHER_LIST
       (or_self vc (validate_certificates self))
       (or_self cc (certificate_chain self))
       (or_self ci (ciphers self))
       (or_self ip (inner_protocols self))
       (or_self lo (lowest_supported_version self))
       (or_self hi (highest_supported_version self))
       (or_self ts (trust_store self))
       (or_self cb (sni_callback self))"

section \<open>The read callback\<close>

lemma read_func_eq:
  "read_func self n =
     ((if length (receive_buffer self) < n then errSSLWouldBlock else 0,
       take n (receive_buffer self)),
      self\<lparr>receive_buffer := drop n (receive_buffer self)\<rparr>)"
  by (simp add: read_func_def Let_def)

text \<open>
  Claim C4, as amended. For every ingress content and every requested length, the read
  callback returns the leading min(available, requested) bytes of ingress and removes
  exactly those bytes, touching nothing else; its status is either 0 or would-block,
  and it is would-block if and only if fewer bytes are returned than were requested. On
  empty ingress it returns zero bytes, with would-block exactly when the requested
  length is positive.
\<close>

theorem read_func_spec:
  assumes "read_func self to_read = ((rc, out), self')"
  shows "out = take (min (length (receive_buffer self)) to_read) (receive_buffer self)
       \<and> length out = min (length (receive_buffer self)) to_read
       \<and> receive_buffer self = out @ receive_buffer self'
       \<and> send_buffer self' = send_buffer self
       \<and> st_context self' = st_context self
       \<and> (rc = errSSLWouldBlock \<longleftrightarrow> length out < to_read)
       \<and> (rc = 0 \<or> rc = errSSLWouldBlock)
       \<and> (receive_buffer self = [] \<longrightarrow>
            out = [] \<and> (rc = errSSLWouldBlock \<longleftrightarrow> 0 < to_read))"
proof -
  from assms have out: "out = take to_read (receive_buffer self)"
    and rest: "self' = self\<lparr>receive_buffer := drop to_read (receive_buffer self)\<rparr>"
    and rc: "rc = (if length (receive_buffer self) < to_read then errSSLWouldBlock else 0)"
    by (simp_all add: read_func_eq)
  have nz: "errSSLWouldBlock \<noteq> 0"
    by (simp add: errSSLWouldBlock_def)
  have 1: "out = take (min (length (receive_buffer self)) to_read) (receive_buffer self)"
    using out by (simp add: min_def)
  have 2: "length out = min (length (receive_buffer self)) to_read"
    using out by simp
  have 3: "receive_buffer self = out @ receive_buffer self'"
    using out rest by simp
  have 4: "send_buffer self' = send_buffer self" "st_context self' = st_context self"
    using rest by simp_all
  have 5: "rc = errSSLWouldBlock \<longleftrightarrow> length out < to_read"
    using rc 2 nz by (simp add: min_def)
  have 6: "rc = 0 \<or> rc = errSSLWouldBlock"
    using rc by simp
  have 7: "receive_buffer self = [] \<longrightarrow>
             out = [] \<and> (rc = errSSLWouldBlock \<longleftrightarrow> 0 < to_read)"
    using out rc nz by simp
  from 1 2 3 4 5 6 7 show ?thesis by blast
qed

text \<open>
  The amended claim at work: five bytes are requested while ingress holds three, so the
  three come back with the would-block status and ingress is left empty.
\<close>

theorem read_func_spec_witness:
  "read_func \<lparr>st_context = (), receive_buffer = [1, 2, 3], send_buffer = [9]\<rparr> 5
     = ((errSSLWouldBlock, [1, 2, 3]),
        \<lparr>st_context = (), receive_buffer = [], send_buffer = [9]\<rparr>)
   \<and> length [1, 2, 3 :: 8 word] = min (length [1, 2, 3 :: 8 word]) 5
   \<and> (errSSLWouldBlock = errSSLWouldBlock \<longleftrightarrow> length [1, 2, 3 :: 8 word] < 5)"
proof -
  have h: "read_func \<lparr>st_context = (), receive_buffer = [1, 2, 3], send_buffer = [9]\<rparr> 5
     = ((errSSLWouldBlock, [1, 2, 3]),
        \<lparr>st_context = (), receive_buffer = [], send_buffer = [9]\<rparr>)"
    by (simp add: read_func_eq)
  from read_func_spec [OF h] h show ?thesis by simp
qed

text \<open>
  Claim C4 as it was stated fails for a request of length zero on empty ingress:
  \<^verbatim>\<open>len(output_data) < to_read\<close> is \<^verbatim>\<open>0 < 0\<close>, so the status stays 0 and is not
  would-block.
\<close>

theorem read_func_empty_counterexample:
  "fst (read_func \<lparr>st_context = (), receive_buffer = [], send_buffer = []\<rparr> 0) = (0, [])
   \<and> (0::int) \<noteq> errSSLWouldBlock"
  by (simp add: read_func_eq errSSLWouldBlock_def)

section \<open>The ingress buffer is a FIFO queue\<close>

lemma ingress_run_Take:
  "ingress_run (Take n # ops) self =
     (take n (receive_buffer self)
        @ fst (ingress_run ops (self\<lparr>receive_buffer := drop n (receive_buffer self)\<rparr>)),
      snd (ingress_run ops (self\<lparr>receive_buffer := drop n (receive_buffer self)\<rparr>)))"
  by (simp add: read_func_eq split: prod.splits)

text \<open>Bytes handed out followed by bytes still staged are the bytes staged before and fed since.\<close>

lemma ingress_run_conserves:
  "fst (ingress_run ops self) @ receive_buffer (snd (ingress_run ops self))
     = receive_buffer self @ fed ops"
proof (induction ops arbitrary: self)
  case Nil
  show ?case by simp
next
  case (Cons x ops)
  show ?case
  proof (cases x)
    case (Feed bs)
    then show ?thesis
      using Cons [of "receive_bytes_from_network self bs"]
      by (simp add: receive_bytes_from_network_def)
  next
    case (Take n)
    have "take n (receive_buffer self) @ drop n (receive_buffer self) @ fed ops
            = receive_buffer self @ fed ops"
      by (simp only: append_assoc [symmetric] append_take_drop_id)
    with Take show ?thesis
      using Cons [of "self\<lparr>receive_buffer := drop n (receive_buffer self)\<rparr>"]
      by (simp add: ingress_run_Take del: ingress_run.simps)
  qed
qed

lemma ingress_run_append:
  "ingress_run (ops @ ops') self =
     (fst (ingress_run ops self) @ fst (ingress_run ops' (snd (ingress_run ops self))),
      snd (ingress_run ops' (snd (ingress_run ops self))))"
proof (induction ops arbitrary: self)
  case Nil
  show ?case by simp
next
  case (Cons x ops)
  show ?case
  proof (cases x)
    case (Feed bs)
    then show ?thesis using Cons by simp
  next
    case (Take n)
    then show ?thesis
      using Cons by (simp add: ingress_run_Take del: ingress_run.simps)
  qed
qed

text \<open>
  Claim C5. Starting from the empty ingress buffer of a new wrapper, for every finite
  history of appends (\<^verbatim>\<open>receive_bytes_from_network\<close>) interleaved with reads of the
  engine callback: the bytes returned by the reads, concatenated, are a prefix of the
  bytes appended, concatenated; what is missing is exactly what is still staged, in
  order; and one more read that asks for enough returns the rest, after which the
  totals are equal and ingress is empty.
\<close>

theorem ingress_fifo:
  "prefix (fst (ingress_run ops (self\<lparr>receive_buffer := []\<rparr>))) (fed ops)
   \<and> fst (ingress_run ops (self\<lparr>receive_buffer := []\<rparr>))
       @ receive_buffer (snd (ingress_run ops (self\<lparr>receive_buffer := []\<rparr>))) = fed ops
   \<and> ingress_run (ops @ [Take (length (fed ops))]) (self\<lparr>receive_buffer := []\<rparr>)
       = (fed ops,
          (snd (ingress_run ops (self\<lparr>receive_buffer := []\<rparr>)))\<lparr>receive_buffer := []\<rparr>)"
proof -
  define s where "s = self\<lparr>receive_buffer := []\<rparr>"
  define outs where "outs = fst (ingress_run ops s)"
  define s' where "s' = snd (ingress_run ops s)"
  have c: "outs @ receive_buffer s' = fed ops"
    using ingress_run_conserves [of ops s] by (simp add: s_def outs_def s'_def)
  then have p: "prefix outs (fed ops)"
    by (metis prefixI)
  from c have len: "length (receive_buffer s') \<le> length (fed ops)"
    by (metis length_append le_add2)
  have "ingress_run [Take (length (fed ops))] s'
          = (receive_buffer s', s'\<lparr>receive_buffer := []\<rparr>)"
    using len by (simp only: ingress_run_Take) simp
  then have "ingress_run (ops @ [Take (length (fed ops))]) s
          = (fed ops, s'\<lparr>receive_buffer := []\<rparr>)"
    using c by (simp add: ingress_run_append outs_def s'_def del: ingress_run.simps)
  with c p show ?thesis
    by (simp add: s_def outs_def s'_def)
qed

section \<open>Classifying a would-block of the engine\<close>

text \<open>The engine can only append to egress: the write callback is its only access to it.\<close>

lemma run_io_send_buffer_grows:
  "\<exists>d. send_buffer (snd (run_io p self)) = send_buffer self @ d"
proof (induction p arbitrary: self)
  case (Finish a)
  show ?case by simp
next
  case (CallRead n k)
  have "\<exists>d. send_buffer (snd (run_io (k (fst (read_func self n))) (snd (read_func self n))))
          = send_buffer (snd (read_func self n)) @ d"
    by (rule CallRead) simp
  then show ?case
    by (simp add: read_func_eq split: prod.splits)
next
  case (CallWrite d k)
  have "\<exists>d'. send_buffer (snd (run_io (k (fst (write_func self d))) (snd (write_func self d))))
          = send_buffer (snd (write_func self d)) @ d'"
    by (rule CallWrite) simp
  then show ?case
    by (auto simp: write_func_def split: prod.splits)
qed

lemma call_engine_send_buffer_grows:
  "\<exists>d. send_buffer (snd (call_engine op self)) = send_buffer self @ d"
  using run_io_send_buffer_grows [of "op (st_context self)" self]
  by (auto simp: call_engine_def split: prod.splits)

lemma would_block_signal_iff:
  assumes "send_buffer self' = send_buffer self @ d"
  shows "would_block_signal self' = WantWriteError
           \<longleftrightarrow> send_buffer self \<noteq> [] \<or> length (send_buffer self) < length (send_buffer self')"
    and "would_block_signal self' = WantReadError
           \<longleftrightarrow> send_buffer self = [] \<and> length (send_buffer self') = length (send_buffer self)"
  using assms by (auto simp: would_block_signal_def)

text \<open>
  Claim C1, as amended. For every handshake or shutdown call on the buffer wrapper that
  ends in an engine would-block, the call raises \<^verbatim>\<open>WantWriteError\<close> if and only if
  the egress buffer is non-empty when the engine call fails, and \<^verbatim>\<open>WantReadError\<close>
  otherwise. Egress is non-empty then exactly when it gained bytes during this call or
  still held bytes left from earlier calls; so the classification follows the delta of
  this call only when egress was empty at its start.
\<close>

theorem would_block_classification:
  "(call_engine (eng_handshake E) self = (RaisedWouldBlock, self') \<longrightarrow>
      Buffer_do_handshake E self = (Inl (would_block_signal self'), self')
    \<and> (would_block_signal self' = WantWriteError \<or> would_block_signal self' = WantReadError)
    \<and> (would_block_signal self' = WantWriteError \<longleftrightarrow> send_buffer self' \<noteq> [])
    \<and> (would_block_signal self' = WantWriteError \<longleftrightarrow>
          send_buffer self \<noteq> [] \<or> length (send_buffer self) < length (send_buffer self')))
 \<and> (call_engine (eng_close E) self = (RaisedWouldBlock, self') \<longrightarrow>
      Buffer_shutdown E self = (Inl (would_block_signal self'), self')
    \<and> (would_block_signal self' = WantWriteError \<or> would_block_signal self' = WantReadError)
    \<and> (would_block_signal self' = WantWriteError \<longleftrightarrow> send_buffer self' \<noteq> [])
    \<and> (would_block_signal self' = WantWriteError \<longleftrightarrow>
          send_buffer self \<noteq> [] \<or> length (send_buffer self) < length (send_buffer self')))"
proof -
  have a: "would_block_signal self' = WantWriteError \<or> would_block_signal self' = WantReadError"
    by (simp add: would_block_signal_def)
  have b: "would_block_signal self' = WantWriteError \<longleftrightarrow> send_buffer self' \<noteq> []"
    by (simp add: would_block_signal_def)
  have c: "would_block_signal self' = WantWriteError \<longleftrightarrow>
          send_buffer self \<noteq> [] \<or> length (send_buffer self) < length (send_buffer self')"
    if "call_engine op self = (RaisedWouldBlock, self')" for op :: "'a \<Rightarrow> (unit engine_outcome \<times> 'a) io_prog"
  proof -
    from call_engine_send_buffer_grows [of op self] that
    obtain d where "send_buffer self' = send_buffer self @ d" by auto
    then show ?thesis by (rule would_block_signal_iff)
  qed
  have h: "Buffer_do_handshake E self = (Inl (would_block_signal self'), self')"
    if "call_engine (eng_handshake E) self = (RaisedWouldBlock, self')"
    using that by (simp add: Buffer_do_handshake_def)
  have s: "Buffer_shutdown E self = (Inl (would_block_signal self'), self')"
    if "call_engine (eng_close E) self = (RaisedWouldBlock, self')"
    using that by (simp add: Buffer_shutdown_def)
  from a b c h s show ?thesis by blast
qed

text \<open>The record engine on an ingress too short for a record: it takes all and blocks.\<close>

lemma need_record_short:
  "length (e @ receive_buffer self) < 5 \<Longrightarrow>
   run_io (need_record e f) self =
     ((RaisedWouldBlock, e @ receive_buffer self), self\<lparr>receive_buffer := []\<rparr>)"
  by (simp add: need_record_def read_func_eq errSSLWouldBlock_def)

text \<open>
  The amended claim at work. Closing writes an alert into an empty egress and then blocks:
  \<^verbatim>\<open>WantWriteError\<close>. A handshake that blocks while egress stays empty:
  \<^verbatim>\<open>WantReadError\<close>.
\<close>

theorem would_block_classification_witness:
  "call_engine (eng_close record_engine) \<lparr>st_context = [], receive_buffer = [], send_buffer = []\<rparr>
     = (RaisedWouldBlock, \<lparr>st_context = [], receive_buffer = [], send_buffer = [21, 1]\<rparr>)
   \<and> Buffer_shutdown record_engine \<lparr>st_context = [], receive_buffer = [], send_buffer = []\<rparr>
     = (Inl WantWriteError, \<lparr>st_context = [], receive_buffer = [], send_buffer = [21, 1]\<rparr>)
   \<and> call_engine (eng_handshake record_engine) \<lparr>st_context = [], receive_buffer = [7, 8], send_buffer = []\<rparr>
     = (RaisedWouldBlock, \<lparr>st_context = [7, 8], receive_buffer = [], send_buffer = []\<rparr>)
   \<and> Buffer_do_handshake record_engine \<lparr>st_context = [], receive_buffer = [7, 8], send_buffer = []\<rparr>
     = (Inl WantReadError, \<lparr>st_context = [7, 8], receive_buffer = [], send_buffer = []\<rparr>)"
proof -
  have c: "call_engine (eng_close record_engine) \<lparr>st_context = [], receive_buffer = [], send_buffer = []\<rparr>
     = (RaisedWouldBlock, \<lparr>st_context = [], receive_buffer = [], send_buffer = [21, 1]\<rparr>)"
    by (simp add: call_engine_def record_engine_def write_func_def need_record_short)
  have h: "call_engine (eng_handshake record_engine) \<lparr>st_context = [], receive_buffer = [7, 8], send_buffer = []\<rparr>
     = (RaisedWouldBlock, \<lparr>st_context = [7, 8], receive_buffer = [], send_buffer = []\<rparr>)"
    by (simp add: call_engine_def record_engine_def need_record_short)
  from would_block_classification [of record_engine
      "\<lparr>st_context = [], receive_buffer = [], send_buffer = []\<rparr>"
      "\<lparr>st_context = [], receive_buffer = [], send_buffer = [21, 1]\<rparr>"] c
  have 1: "Buffer_shutdown record_engine \<lparr>st_context = [], receive_buffer = [], send_buffer = []\<rparr>
     = (Inl WantWriteError, \<lparr>st_context = [], receive_buffer = [], send_buffer = [21, 1]\<rparr>)"
    by (simp add: would_block_signal_def)
  from would_block_classification [of record_engine
      "\<lparr>st_context = [], receive_buffer = [7, 8], send_buffer = []\<rparr>"
      "\<lparr>st_context = [7, 8], receive_buffer = [], send_buffer = []\<rparr>"] h
  have 2: "Buffer_do_handshake record_engine \<lparr>st_context = [], receive_buffer = [7, 8], send_buffer = []\<rparr>
     = (Inl WantReadError, \<lparr>st_context = [7, 8], receive_buffer = [], send_buffer = []\<rparr>)"
    by (simp add: would_block_signal_def)
  from c h 1 2 show ?thesis by simp
qed

text \<open>
  Claim C1 as it was stated fails when egress holds a byte left from an earlier call and
  the engine blocks without writing anything: egress gains nothing during the call, yet
  both \<^verbatim>\<open>do_handshake\<close> and \<^verbatim>\<open>shutdown\<close> raise \<^verbatim>\<open>WantWriteError\<close>.
\<close>

theorem leftover_egress_counterexample:
  "Buffer_do_handshake stalled_engine \<lparr>st_context = (), receive_buffer = [], send_buffer = [1]\<rparr>
     = (Inl WantWriteError, \<lparr>st_context = (), receive_buffer = [], send_buffer = [1]\<rparr>)
   \<and> Buffer_shutdown stalled_engine \<lparr>st_context = (), receive_buffer = [], send_buffer = [1]\<rparr>
     = (Inl WantWriteError, \<lparr>st_context = (), receive_buffer = [], send_buffer = [1]\<rparr>)"
  by (simp add: Buffer_do_handshake_def Buffer_shutdown_def call_engine_def stalled_engine_def
        would_block_signal_def)


section \<open>Flushing egress\<close>

text \<open>
  Claim C6. Let egress hold n bytes and let the socket send, given the (at most 8192)
  leading bytes of egress, confirm k of them. Then the adapter removes exactly the first
  k bytes from egress (\<^verbatim>\<open>consume_bytes\<close> of the confirmed count); the bytes the socket
  took followed by the bytes that stay are the old egress, so nothing is dropped without
  a confirming send; the n - k remaining bytes stay unchanged and in order, and the next
  flush attempt starts at byte k, so nothing is sent twice. Ingress and the engine are
  not touched.
\<close>

theorem partial_send_keeps_rest:
  assumes "send S (socket self) (peek_bytes (buffer self) 8192) = (Inr k, s')"
      and "k \<le> length (peek_bytes (buffer self) 8192)"
  shows "send_some S self = (Inr k, self\<lparr>socket := s', buffer := consume_bytes (buffer self) k\<rparr>)
       \<and> send_buffer (consume_bytes (buffer self) k) = drop k (send_buffer (buffer self))
       \<and> take k (peek_bytes (buffer self) 8192) @ send_buffer (consume_bytes (buffer self) k)
           = send_buffer (buffer self)
       \<and> length (send_buffer (consume_bytes (buffer self) k))
           = length (send_buffer (buffer self)) - k
       \<and> peek_bytes (consume_bytes (buffer self) k) 8192
           = take 8192 (drop k (send_buffer (buffer self)))
       \<and> receive_buffer (consume_bytes (buffer self) k) = receive_buffer (buffer self)
       \<and> st_context (consume_bytes (buffer self) k) = st_context (buffer self)"
proof -
  have 1: "send_some S self = (Inr k, self\<lparr>socket := s', buffer := consume_bytes (buffer self) k\<rparr>)"
    using assms(1) by (simp add: send_some_def)
  from assms(2) have k: "k \<le> 8192"
    by (simp add: peek_bytes_def)
  then have "take k (take 8192 (send_buffer (buffer self))) = take k (send_buffer (buffer self))"
    by (simp add: min_def)
  then have 2: "take k (peek_bytes (buffer self) 8192) @ send_buffer (consume_bytes (buffer self) k)
           = send_buffer (buffer self)"
    by (simp add: peek_bytes_def consume_bytes_def)
  have 3: "send_buffer (consume_bytes (buffer self) k) = drop k (send_buffer (buffer self))"
    "length (send_buffer (consume_bytes (buffer self) k)) = length (send_buffer (buffer self)) - k"
    "peek_bytes (consume_bytes (buffer self) k) 8192 = take 8192 (drop k (send_buffer (buffer self)))"
    "receive_buffer (consume_bytes (buffer self) k) = receive_buffer (buffer self)"
    "st_context (consume_bytes (buffer self) k) = st_context (buffer self)"
    by (simp_all add: peek_bytes_def consume_bytes_def)
  from 1 2 3 show ?thesis by blast
qed

text \<open>
  The scenario of the specification: the socket accepts only 3 of 10 queued bytes, and
  the remaining 7 stay queued.
\<close>

theorem partial_send_keeps_rest_witness:
  "send_some scripted
     \<lparr>socket = \<lparr>timeout = None, incoming = [], accepts = [3], wire = [], closed = False\<rparr>,
      buffer = \<lparr>st_context = (), receive_buffer = [], send_buffer = [1, 2, 3, 4, 5, 6, 7, 8, 9, 10]\<rparr>\<rparr>
   = (Inr 3,
     \<lparr>socket = \<lparr>timeout = None, incoming = [], accepts = [], wire = [1, 2, 3], closed = False\<rparr>,
      buffer = \<lparr>st_context = (), receive_buffer = [], send_buffer = [4, 5, 6, 7, 8, 9, 10]\<rparr>\<rparr>)"
proof -
  let ?s = "\<lparr>timeout = None, incoming = [], accepts = [3], wire = ([] :: bytes), closed = False\<rparr>"
  let ?b = "\<lparr>st_context = (), receive_buffer = [], send_buffer = [1, 2, 3, 4, 5, 6, 7, 8, 9, 10 :: 8 word]\<rparr>"
  let ?w = "\<lparr>socket = ?s, buffer = ?b\<rparr>"
  have p: "peek_bytes ?b 8192 = [1, 2, 3, 4, 5, 6, 7, 8, 9, 10]"
    by (simp add: peek_bytes_def)
  have "send scripted ?s [1, 2, 3, 4, 5, 6, 7, 8, 9, 10]
          = (Inr 3, \<lparr>timeout = None, incoming = [], accepts = [], wire = [1, 2, 3], closed = False\<rparr>)"
    by (simp add: scripted_def)
  then have h1: "send scripted (socket ?w) (peek_bytes (buffer ?w) 8192)
          = (Inr 3, \<lparr>timeout = None, incoming = [], accepts = [], wire = [1, 2, 3], closed = False\<rparr>)"
    by (simp add: p)
  have h2: "3 \<le> length (peek_bytes (buffer ?w) 8192)"
    by (simp add: p)
  from partial_send_keeps_rest [OF h1 h2] show ?thesis
    by (simp add: consume_bytes_def peek_bytes_def)
qed

section \<open>\<^verbatim>\<open>TLSConfiguration\<close>: defaults and update\<close>

text \<open>
  Claim C9. A \<^verbatim>\<open>TLSConfiguration\<close> constructed without explicit arguments has
  \<^verbatim>\<open>validate_certificates\<close> True, \<^verbatim>\<open>inner_protocols\<close> empty,
  \<^verbatim>\<open>lowest_supported_version\<close> \<^verbatim>\<open>TLSv1\<close> and \<^verbatim>\<open>highest_supported_version\<close>
  \<^verbatim>\<open>MAXIMUM_SUPPORTED\<close>; each of these defaults also applies whenever that one argument
  is left out, whatever the others are. In particular certificate validation is on by
  default.
\<close>

theorem TLSConfiguration_defaults:
  "TLSConfiguration_new DEFAULT_CIPHER_LIST None None None None None None None None
     = \<lparr> validate_certificates = Some True,
         certificate_chain = None,
         ciphers = Some DEFAULT_CIPHER_LIST,
         inner_protocols = Some [],
         lowest_supported_version = Some TLSv1,
         highest_supported_version = Some MAXIMUM_SUPPORTED,
         trust_store = None,
         sni_callback = None \<rparr>
   \<and> validate_certificates (TLSConfiguration_new DEFAULT_CIPHER_LIST None cc ci ip lo hi ts cb)
       = Some True
   \<and> inner_protocols (TLSConfiguration_new DEFAULT_CIPHER_LIST vc cc ci None lo hi ts cb)
       = Some []
   \<and> lowest_supported_version (TLSConfiguration_new DEFAULT_CIPHER_LIST vc cc ci ip None hi ts cb)
       = Some TLSv1
   \<and> highest_supported_version (TLSConfiguration_new DEFAULT_CIPHER_LIST vc cc ci ip lo None ts cb)
       = Some MAXIMUM_SUPPORTED"
  by (simp add: TLSConfiguration_new_def or_default_def)

section \<open>Reading without an amount\<close>

text \<open>
  Claim C10. Calling \<^verbatim>\<open>read\<close> with \<^verbatim>\<open>amt = None\<close> on the buffer-shaped wrapper
  fails the assertion, for every buffer state and engine, before the engine is called
  (nothing is read, the state is unchanged). With a concrete integer the assertion
  branch is unreachable: the result is what the engine's read gives, and never the
  assertion failure.
\<close>

theorem read_without_amt_asserts:
  "Buffer_read E self None = (Inl AssertionError, self)
   \<and> fst (Buffer_read E self (Some n)) \<noteq> Inl AssertionError
   \<and> Buffer_read E self (Some n) =
       (case call_engine (\<lambda>e. eng_read E e n) self of
          (Returned data, self') \<Rightarrow> (Inr data, self')
        | (RaisedWouldBlock, self') \<Rightarrow> (Inl WantReadError, self')
        | (RaisedOther c, self') \<Rightarrow> (Inl (SecureTransportError c), self'))"
  by (simp add: Buffer_read_def split: prod.splits engine_outcome.splits)

text \<open>Normalising a value that the constructor has already normalised changes nothing.\<close>

lemma or_default_idem: "or_default (or_default x d) d = or_default x d"
  by (simp add: or_default_def split: option.splits)

lemma update_fields:
  "validate_certificates (update D c vc cc ci ip lo hi ts cb)
     = or_default (or_self vc (validate_certificates c)) True"
  "certificate_chain (update D c vc cc ci ip lo hi ts cb) = or_self cc (certificate_chain c)"
  "ciphers (update D c vc cc ci ip lo hi ts cb) = or_default (or_self ci (ciphers c)) D"
  "inner_protocols (update D c vc cc ci ip lo hi ts cb)
     = or_default (or_self ip (inner_protocols c)) []"
  "lowest_supported_version (update D c vc cc ci ip lo hi ts cb)
     = or_default (or_self lo (lowest_supported_version c)) TLSv1"
  "highest_supported_version (update D c vc cc ci ip lo hi ts cb)
     = or_default (or_self hi (highest_supported_version c)) MAXIMUM_SUPPORTED"
  "trust_store (update D c vc cc ci ip lo hi ts cb) = or_self ts (trust_store c)"
  "sni_callback (update D c vc cc ci ip lo hi ts cb) = or_self cb (sni_callback c)"
  by (simp_all add: update_def TLSConfiguration_new_def)

text \<open>
  Claim C8, as amended. For every \<^verbatim>\<open>TLSConfiguration\<close> value c made by the
  constructor and every subset of fields supplied to \<^verbatim>\<open>c.update(...)\<close>, the result is
  a new configuration in which every field not supplied equals the field of c, and each
  supplied field has the supplied value, except that a supplied \<^verbatim>\<open>None\<close> for
  \<^verbatim>\<open>validate_certificates\<close>, \<^verbatim>\<open>ciphers\<close>, \<^verbatim>\<open>inner_protocols\<close>,
  \<^verbatim>\<open>lowest_supported_version\<close> or \<^verbatim>\<open>highest_supported_version\<close> is replaced by
  that field's default, as the constructor does. \<^verbatim>\<open>update()\<close> with no arguments
  yields a configuration equal to c. (c itself cannot change: \<^verbatim>\<open>update\<close> is a function
  of c that only reads it.)
\<close>

theorem update_spec:
  "validate_certificates
     (update D (TLSConfiguration_new D a1 a2 a3 a4 a5 a6 a7 a8) vc cc ci ip lo hi ts cb)
     = (case vc of DEFAULT_VALUE \<Rightarrow> validate_certificates (TLSConfiguration_new D a1 a2 a3 a4 a5 a6 a7 a8)
        | Supplied None \<Rightarrow> Some True | Supplied (Some v) \<Rightarrow> Some v)
   \<and> certificate_chain
     (update D (TLSConfiguration_new D a1 a2 a3 a4 a5 a6 a7 a8) vc cc ci ip lo hi ts cb)
     = (case cc of DEFAULT_VALUE \<Rightarrow> certificate_chain (TLSConfiguration_new D a1 a2 a3 a4 a5 a6 a7 a8)
        | Supplied v \<Rightarrow> v)
   \<and> ciphers
     (update D (TLSConfiguration_new D a1 a2 a3 a4 a5 a6 a7 a8) vc cc ci ip lo hi ts cb)
     = (case ci of DEFAULT_VALUE \<Rightarrow> ciphers (TLSConfiguration_new D a1 a2 a3 a4 a5 a6 a7 a8)
        | Supplied None \<Rightarrow> Some D | Supplied (Some v) \<Rightarrow> Some v)
   \<and> inner_protocols
     (update D (TLSConfiguration_new D a1 a2 a3 a4 a5 a6 a7 a8) vc cc ci ip lo hi ts cb)
     = (case ip of DEFAULT_VALUE \<Rightarrow> inner_protocols (TLSConfiguration_new D a1 a2 a3 a4 a5 a6 a7 a8)
        | Supplied None \<Rightarrow> Some [] | Supplied (Some v) \<Rightarrow> Some v)
   \<and> lowest_supported_version
     (update D (TLSConfiguration_new D a1 a2 a3 a4 a5 a6 a7 a8) vc cc ci ip lo hi ts cb)
     = (case lo of DEFAULT_VALUE \<Rightarrow> lowest_supported_version (TLSConfiguration_new D a1 a2 a3 a4 a5 a6 a7 a8)
        | Supplied None \<Rightarrow> Some TLSv1 | Supplied (Some v) \<Rightarrow> Some v)
   \<and> highest_supported_version
     (update D (TLSConfiguration_new D a1 a2 a3 a4 a5 a6 a7 a8) vc cc ci ip lo hi ts cb)
     = (case hi of DEFAULT_VALUE \<Rightarrow> highest_supported_version (TLSConfiguration_new D a1 a2 a3 a4 a5 a6 a7 a8)
        | Supplied None \<Rightarrow> Some MAXIMUM_SUPPORTED | Supplied (Some v) \<Rightarrow> Some v)
   \<and> trust_store
     (update D (TLSConfiguration_new D a1 a2 a3 a4 a5 a6 a7 a8) vc cc ci ip lo hi ts cb)
     = (case ts of DEFAULT_VALUE \<Rightarrow> trust_store (TLSConfiguration_new D a1 a2 a3 a4 a5 a6 a7 a8)
        | Supplied v \<Rightarrow> v)
   \<and> sni_callback
     (update D (TLSConfiguration_new D a1 a2 a3 a4 a5 a6 a7 a8) vc cc ci ip lo hi ts cb)
     = (case cb of DEFAULT_VALUE \<Rightarrow> sni_callback (TLSConfiguration_new D a1 a2 a3 a4 a5 a6 a7 a8)
        | Supplied v \<Rightarrow> v)
   \<and> update D (TLSConfiguration_new D a1 a2 a3 a4 a5 a6 a7 a8)
        DEFAULT_VALUE DEFAULT_VALUE DEFAULT_VALUE DEFAULT_VALUE
        DEFAULT_VALUE DEFAULT_VALUE DEFAULT_VALUE DEFAULT_VALUE
     = TLSConfiguration_new D a1 a2 a3 a4 a5 a6 a7 a8"
proof -
  let ?c = "TLSConfiguration_new D a1 a2 a3 a4 a5 a6 a7 a8"
  let ?u = "update D ?c vc cc ci ip lo hi ts cb"
  have 1: "validate_certificates ?u
     = (case vc of DEFAULT_VALUE \<Rightarrow> validate_certificates ?c
        | Supplied None \<Rightarrow> Some True | Supplied (Some v) \<Rightarrow> Some v)"
    by (simp add: update_fields or_self_def or_default_idem TLSConfiguration_new_def
          split: arg.splits option.splits) (simp add: or_default_def)
  have 2: "certificate_chain ?u
     = (case cc of DEFAULT_VALUE \<Rightarrow> certificate_chain ?c | Supplied v \<Rightarrow> v)"
    by (simp add: update_fields or_self_def split: arg.splits)
  have 3: "ciphers ?u
     = (case ci of DEFAULT_VALUE \<Rightarrow> ciphers ?c
        | Supplied None \<Rightarrow> Some D | Supplied (Some v) \<Rightarrow> Some v)"
    by (simp add: update_fields or_self_def or_default_idem TLSConfiguration_new_def
          split: arg.splits option.splits) (simp add: or_default_def)
  have 4: "inner_protocols ?u
     = (case ip of DEFAULT_VALUE \<Rightarrow> inner_protocols ?c
        | Supplied None \<Rightarrow> Some [] | Supplied (Some v) \<Rightarrow> Some v)"
    by (simp add: update_fields or_self_def or_default_idem TLSConfiguration_new_def
          split: arg.splits option.splits) (simp add: or_default_def)
  have 5: "lowest_supported_version ?u
     = (case lo of DEFAULT_VALUE \<Rightarrow> lowest_supported_version ?c
        | Supplied None \<Rightarrow> Some TLSv1 | Supplied (Some v) \<Rightarrow> Some v)"
    by (simp add: update_fields or_self_def or_default_idem TLSConfiguration_new_def
          split: arg.splits option.splits) (simp add: or_default_def)
  have 6: "highest_supported_version ?u
     = (case hi of DEFAULT_VALUE \<Rightarrow> highest_supported_version ?c
        | Supplied None \<Rightarrow> Some MAXIMUM_SUPPORTED | Supplied (Some v) \<Rightarrow> Some v)"
    by (simp add: update_fields or_self_def or_default_idem TLSConfiguration_new_def
          split: arg.splits option.splits) (simp add: or_default_def)
  have 7: "trust_store ?u
     = (case ts of DEFAULT_VALUE \<Rightarrow> trust_store ?c | Supplied v \<Rightarrow> v)"
    by (simp add: update_fields or_self_def split: arg.splits)
  have 8: "sni_callback ?u
     = (case cb of DEFAULT_VALUE \<Rightarrow> sni_callback ?c | Supplied v \<Rightarrow> v)"
    by (simp add: update_fields or_self_def split: arg.splits)
  have 9: "update D ?c DEFAULT_VALUE DEFAULT_VALUE DEFAULT_VALUE DEFAULT_VALUE
        DEFAULT_VALUE DEFAULT_VALUE DEFAULT_VALUE DEFAULT_VALUE = ?c"
    by (simp add: update_def or_self_def TLSConfiguration_new_def or_default_idem)
  from 1 2 3 4 5 6 7 8 9 show ?thesis by blast
qed

text \<open>
  Claim C8 as it was stated fails when \<^verbatim>\<open>None\<close> is supplied for a field with a
  default: \<^verbatim>\<open>c.update(validate_certificates=None)\<close> passes \<^verbatim>\<open>None\<close> on to the
  constructor, which turns it into \<^verbatim>\<open>True\<close>. The field of the result is not the
  supplied value.
\<close>

theorem update_None_counterexample:
  "validate_certificates
     (update [] (TLSConfiguration_new [] None (None :: unit option) None None None None
                   (None :: unit option) (None :: unit option))
        (Supplied None) DEFAULT_VALUE DEFAULT_VALUE DEFAULT_VALUE
        DEFAULT_VALUE DEFAULT_VALUE DEFAULT_VALUE DEFAULT_VALUE)
     = Some True
   \<and> Some True \<noteq> (None :: bool option)"
  by (simp add: update_def TLSConfiguration_new_def or_self_def or_default_def)


section \<open>Would-block signals and the blocking socket\<close>

text \<open>The record engine on an ingress that completes the record: it takes what is missing.\<close>

lemma need_record_full:
  "length e \<le> 5 \<Longrightarrow> 5 \<le> length (e @ receive_buffer self) \<Longrightarrow>
   run_io (need_record e f) self =
     ((Returned (f (e @ take (5 - length e) (receive_buffer self))), []),
      self\<lparr>receive_buffer := drop (5 - length e) (receive_buffer self)\<rparr>)"
  by (simp add: need_record_def read_func_eq errSSLWouldBlock_def)

text \<open>
  The handshake loop on a blocking socket: \<^verbatim>\<open>if not blocking and done_io: raise\<close> never
  fires, so neither signal leaves the loop, however long it runs.
\<close>

lemma blocking_handshake_never_wants:
  "fst (do_handshake_loop fuel E S True done_io self) \<noteq> Some (Inl WantReadError)
   \<and> fst (do_handshake_loop fuel E S True done_io self) \<noteq> Some (Inl WantWriteError)"
proof (induction fuel arbitrary: done_io self)
  case 0
  show ?case by simp
next
  case (Suc fuel)
  obtain r b' where step: "Buffer_do_handshake E (buffer self) = (r, b')"
    by (cases "Buffer_do_handshake E (buffer self)")
  show ?case
  proof (cases r)
    case (Inr u)
    with step show ?thesis by simp
  next
    case (Inl x)
    consider (rd) "x = WantReadError" | (wr) "x = WantWriteError"
      | (other) "x \<noteq> WantReadError" "x \<noteq> WantWriteError"
      by blast
    then show ?thesis
    proof cases
      case rd
      obtain rr s' where rc: "recv S (socket self) 8192 0 = (rr, s')"
        by (cases "recv S (socket self) 8192 0")
      show ?thesis
      proof (cases rr)
        case (Inl err)
        with step \<open>r = Inl x\<close> rd rc show ?thesis by simp
      next
        case (Inr data)
        with step \<open>r = Inl x\<close> rd rc Suc show ?thesis by simp
      qed
    next
      case wr
      obtain rr self' where sc: "send_some S (self\<lparr>buffer := b'\<rparr>) = (rr, self')"
        by (cases "send_some S (self\<lparr>buffer := b'\<rparr>)")
      show ?thesis
      proof (cases rr)
        case (Inl err)
        with step \<open>r = Inl x\<close> wr sc show ?thesis by simp
      next
        case (Inr sent)
        with step \<open>r = Inl x\<close> wr sc Suc show ?thesis by simp
      qed
    next
      case other
      with step \<open>r = Inl x\<close> show ?thesis by simp
    qed
  qed
qed

text \<open>
  Claim C2 says that on a blocking socket no operation of the socket-shaped wrapper,
  handshake or receive, ever raises \<^verbatim>\<open>WantReadError\<close> or \<^verbatim>\<open>WantWriteError\<close> to the
  application, for any sequence of partial socket receives. The handshake loop keeps to
  it (lemma above); \<^verbatim>\<open>recv\<close> does not: its second read of the buffer wrapper stands
  outside the \<^verbatim>\<open>try\<close> and there is no loop. Here the socket is blocking, the engine
  needs a five-byte record, and the socket delivers the first two bytes: \<^verbatim>\<open>recv(5)\<close>
  raises \<^verbatim>\<open>WantReadError\<close>.
\<close>

theorem recv_raises_WantReadError_on_blocking_socket:
  "gettimeout scripted \<lparr>timeout = None, incoming = [Inr [1, 2]], accepts = [], wire = [],
                        closed = False\<rparr> = None
   \<and> WrappedSocket_recv record_engine scripted
       \<lparr>socket = \<lparr>timeout = None, incoming = [Inr [1, 2]], accepts = [], wire = [],
                  closed = False\<rparr>,
        buffer = \<lparr>st_context = [], receive_buffer = [], send_buffer = []\<rparr>\<rparr> 5 0
     = (Inl WantReadError,
        \<lparr>socket = \<lparr>timeout = None, incoming = [], accepts = [], wire = [], closed = False\<rparr>,
         buffer = \<lparr>st_context = [1, 2], receive_buffer = [], send_buffer = []\<rparr>\<rparr>)"
proof -
  have 1: "Buffer_read record_engine \<lparr>st_context = [], receive_buffer = [], send_buffer = []\<rparr> (Some 5)
       = (Inl WantReadError, \<lparr>st_context = [], receive_buffer = [], send_buffer = []\<rparr>)"
    by (simp add: Buffer_read_def call_engine_def record_engine_def need_record_short)
  have 2: "recv scripted \<lparr>timeout = None, incoming = [Inr [1, 2]], accepts = [], wire = [],
                        closed = False\<rparr> 8192 0
       = (Inr [1, 2], \<lparr>timeout = None, incoming = [], accepts = [], wire = [], closed = False\<rparr>)"
    by (simp add: scripted_def)
  have 3: "Buffer_read record_engine \<lparr>st_context = [], receive_buffer = [1, 2], send_buffer = []\<rparr> (Some 5)
       = (Inl WantReadError, \<lparr>st_context = [1, 2], receive_buffer = [], send_buffer = []\<rparr>)"
    by (simp add: Buffer_read_def call_engine_def record_engine_def need_record_short)
  have 4: "gettimeout scripted \<lparr>timeout = None, incoming = [Inr [1, 2]], accepts = [], wire = [],
                        closed = False\<rparr> = None"
    by (simp add: scripted_def)
  show ?thesis
    by (simp add: 4 WrappedSocket_recv_def 1 2 3 receive_bytes_from_network_def)
qed

section \<open>Unwrap and close\<close>

lemma peek_bytes_empty_iff: "peek_bytes b 8192 = [] \<longleftrightarrow> send_buffer b = []"
  by (simp add: peek_bytes_def)

text \<open>When the draining loop of \<^verbatim>\<open>unwrap\<close> ends normally, egress is empty.\<close>

lemma unwrap_loop_drained:
  "unwrap_loop fuel S self = (Some (Inr u), self') \<Longrightarrow> send_buffer (buffer self') = []"
proof (induction fuel arbitrary: self)
  case 0
  then show ?case by simp
next
  case (Suc fuel)
  show ?case
  proof (cases "peek_bytes (buffer self) 8192 = []")
    case True
    with Suc.prems show ?thesis by (simp add: peek_bytes_empty_iff)
  next
    case False
    obtain rr self1 where sc: "send_some S self = (rr, self1)"
      by (cases "send_some S self")
    show ?thesis
    proof (cases rr)
      case (Inl err)
      with False sc Suc.prems show ?thesis by simp
    next
      case (Inr sent)
      with False sc Suc.prems have "unwrap_loop fuel S self1 = (Some (Inr u), self')"
        by simp
      then show ?thesis by (rule Suc.IH)
    qed
  qed
qed

text \<open>
  The draining loop does end when the socket makes progress (every send of some bytes
  confirms at least one and does not raise): one iteration per byte of egress and one
  more are enough.
\<close>

lemma unwrap_loop_terminates:
  assumes progress: "\<And>s d. d \<noteq> [] \<Longrightarrow> \<exists>k s'. send S s d = (Inr k, s') \<and> 0 < k"
  shows "length (send_buffer (buffer self)) < fuel \<Longrightarrow>
         \<exists>self'. unwrap_loop fuel S self = (Some (Inr ()), self')"
proof (induction fuel arbitrary: self)
  case 0
  then show ?case by simp
next
  case (Suc fuel)
  show ?case
  proof (cases "peek_bytes (buffer self) 8192 = []")
    case True
    then show ?thesis by simp
  next
    case False
    then obtain k s' where snd: "send S (socket self) (peek_bytes (buffer self) 8192) = (Inr k, s')"
      and k: "0 < k"
      using progress by blast
    let ?self1 = "self\<lparr>socket := s', buffer := consume_bytes (buffer self) k\<rparr>"
    from snd have sc: "send_some S self = (Inr k, ?self1)"
      by (simp add: send_some_def)
    from False have "send_buffer (buffer self) \<noteq> []"
      by (simp add: peek_bytes_empty_iff)
    with k Suc.prems have "length (send_buffer (buffer ?self1)) < fuel"
      by (simp add: consume_bytes_def) (cases "send_buffer (buffer self)"; simp)
    from Suc.IH [OF this] obtain self' where "unwrap_loop fuel S ?self1 = (Some (Inr ()), self')"
      by blast
    with False sc show ?thesis by simp
  qed
qed

text \<open>
  When \<^verbatim>\<open>shutdown\<close> returns: an \<^verbatim>\<open>unwrap\<close> that returns has emptied egress and
  hands back the raw socket as the loop left it, not closed; \<^verbatim>\<open>close\<close> does the same
  and then closes that socket.
\<close>

lemma unwrap_after_shutdown:
  assumes "Buffer_shutdown E (buffer self) = (Inr (), b')"
      and "WrappedSocket_unwrap fuel E S self = (Some (Inr s), self')"
  shows "send_buffer (buffer self') = [] \<and> s = socket self'
       \<and> WrappedSocket_close fuel E S self = (Some (Inr ()), self'\<lparr>socket := close S s\<rparr>)"
proof -
  obtain r self1 where l: "unwrap_loop fuel S (self\<lparr>buffer := b'\<rparr>) = (r, self1)"
    by (cases "unwrap_loop fuel S (self\<lparr>buffer := b'\<rparr>)")
  from assms l have "r = Some (Inr ()) \<and> self1 = self' \<and> s = socket self'"
    by (auto simp: WrappedSocket_unwrap_def split: option.splits sum.splits)
  with l have "send_buffer (buffer self') = []" "s = socket self'"
    by (auto dest: unwrap_loop_drained)
  with assms(2) show ?thesis
    by (simp add: WrappedSocket_close_def)
qed

text \<open>
  Claim C7 says that \<^verbatim>\<open>unwrap\<close> requests the shutdown, then drains egress to the
  socket until it is empty regardless of any further input-needed signals from the
  shutdown step, then returns the raw socket; and that \<^verbatim>\<open>close\<close> does the same and
  closes the socket. The code calls \<^verbatim>\<open>self._buffer.shutdown()\<close> outside any
  \<^verbatim>\<open>try\<close>: when the engine's close blocks, the signal leaves \<^verbatim>\<open>unwrap\<close> before the
  draining loop. Here the engine stages its two-byte closure alert and then waits for
  the peer: \<^verbatim>\<open>unwrap\<close> raises \<^verbatim>\<open>WantWriteError\<close>, the alert stays in egress, nothing
  reaches the wire, no socket is returned, and \<^verbatim>\<open>close\<close> leaves the socket open. With
  an engine that blocks without writing, \<^verbatim>\<open>unwrap\<close> raises \<^verbatim>\<open>WantReadError\<close>.
\<close>

theorem unwrap_stops_when_shutdown_blocks:
  "WrappedSocket_unwrap fuel record_engine scripted
       \<lparr>socket = \<lparr>timeout = None, incoming = [], accepts = [], wire = [], closed = False\<rparr>,
        buffer = \<lparr>st_context = [], receive_buffer = [], send_buffer = []\<rparr>\<rparr>
     = (Some (Inl WantWriteError),
        \<lparr>socket = \<lparr>timeout = None, incoming = [], accepts = [], wire = [], closed = False\<rparr>,
         buffer = \<lparr>st_context = [], receive_buffer = [], send_buffer = [21, 1]\<rparr>\<rparr>)
   \<and> WrappedSocket_close fuel record_engine scripted
       \<lparr>socket = \<lparr>timeout = None, incoming = [], accepts = [], wire = [], closed = False\<rparr>,
        buffer = \<lparr>st_context = [], receive_buffer = [], send_buffer = []\<rparr>\<rparr>
     = (Some (Inl WantWriteError),
        \<lparr>socket = \<lparr>timeout = None, incoming = [], accepts = [], wire = [], closed = False\<rparr>,
         buffer = \<lparr>st_context = [], receive_buffer = [], send_buffer = [21, 1]\<rparr>\<rparr>)
   \<and> WrappedSocket_unwrap fuel stalled_engine scripted
       \<lparr>socket = \<lparr>timeout = None, incoming = [], accepts = [], wire = [], closed = False\<rparr>,
        buffer = \<lparr>st_context = (), receive_buffer = [], send_buffer = []\<rparr>\<rparr>
     = (Some (Inl WantReadError),
        \<lparr>socket = \<lparr>timeout = None, incoming = [], accepts = [], wire = [], closed = False\<rparr>,
         buffer = \<lparr>st_context = (), receive_buffer = [], send_buffer = []\<rparr>\<rparr>)"
proof -
  have 1: "Buffer_shutdown record_engine \<lparr>st_context = [], receive_buffer = [], send_buffer = []\<rparr>
     = (Inl WantWriteError, \<lparr>st_context = [], receive_buffer = [], send_buffer = [21, 1]\<rparr>)"
    by (simp add: Buffer_shutdown_def call_engine_def record_engine_def write_func_def
          need_record_short would_block_signal_def)
  have 2: "Buffer_shutdown stalled_engine \<lparr>st_context = (), receive_buffer = [], send_buffer = []\<rparr>
     = (Inl WantReadError, \<lparr>st_context = (), receive_buffer = [], send_buffer = []\<rparr>)"
    by (simp add: Buffer_shutdown_def call_engine_def stalled_engine_def would_block_signal_def)
  show ?thesis
    by (simp add: WrappedSocket_unwrap_def WrappedSocket_close_def 1 2)
qed

text \<open>
  The path on which \<^verbatim>\<open>unwrap\<close> works: the peer's record is already staged, so the
  shutdown returns; the alert goes out in two sends (the socket first accepts one byte)
  and the socket comes back open.
\<close>

lemma unwrap_example:
  "WrappedSocket_unwrap 3 record_engine scripted
       \<lparr>socket = \<lparr>timeout = None, incoming = [], accepts = [1], wire = [], closed = False\<rparr>,
        buffer = \<lparr>st_context = [], receive_buffer = [1, 2, 3, 4, 5], send_buffer = []\<rparr>\<rparr>
     = (Some (Inr \<lparr>timeout = None, incoming = [], accepts = [], wire = [21, 1],
                    closed = False\<rparr>),
        \<lparr>socket = \<lparr>timeout = None, incoming = [], accepts = [], wire = [21, 1],
                   closed = False\<rparr>,
         buffer = \<lparr>st_context = [], receive_buffer = [], send_buffer = []\<rparr>\<rparr>)"
proof -
  have 1: "Buffer_shutdown record_engine
             \<lparr>st_context = [], receive_buffer = [1, 2, 3, 4, 5], send_buffer = []\<rparr>
     = (Inr (), \<lparr>st_context = [], receive_buffer = [], send_buffer = [21, 1]\<rparr>)"
    by (simp add: Buffer_shutdown_def call_engine_def record_engine_def write_func_def
          need_record_full)
  have 2: "unwrap_loop (Suc (Suc (Suc 0))) scripted
       \<lparr>socket = \<lparr>timeout = None, incoming = [], accepts = [1], wire = [], closed = False\<rparr>,
        buffer = \<lparr>st_context = [], receive_buffer = [], send_buffer = [21, 1]\<rparr>\<rparr>
     = (Some (Inr ()),
        \<lparr>socket = \<lparr>timeout = None, incoming = [], accepts = [], wire = [21, 1],
                   closed = False\<rparr>,
         buffer = \<lparr>st_context = [], receive_buffer = [], send_buffer = []\<rparr>\<rparr>)"
    by (simp add: send_some_def peek_bytes_def consume_bytes_def scripted_def)
  show ?thesis
    by (simp add: WrappedSocket_unwrap_def 1 2 [simplified] numeral_3_eq_3)
qed


section \<open>The handshake on a non-blocking socket\<close>

lemma recording_simps:
  "gettimeout (recording S) (s, log) = gettimeout S s"
  "recv (recording S) (s, log) n f
     = (fst (recv S s n f), (snd (recv S s n f), log @ [CalledRecv]))"
  "send (recording S) (s, log) d
     = (fst (send S s d), (snd (send S s d), log @ [CalledSend]))"
  by (simp_all add: recording_def split: prod.splits)

lemma send_some_recording:
  assumes "socket self = (s, log)"
  shows "snd (socket (snd (send_some (recording S) self))) = log @ [CalledSend]"
  using assms
  by (simp add: send_some_def recording_simps Let_def split: prod.splits sum.splits)

text \<open>
  Once a receive has been done on a non-blocking socket, the next step of the buffer
  wrapper ends the invocation, whatever it gives, and the socket is not called again.
\<close>

lemma loop_after_io:
  "do_handshake_loop (Suc fuel) E S False True self =
     (Some (fst (Buffer_do_handshake E (buffer self))),
      self\<lparr>buffer := snd (Buffer_do_handshake E (buffer self))\<rparr>)"
  by (simp split: prod.splits sum.splits)

lemma loop_after_io_socket:
  "socket (snd (do_handshake_loop fuel E S False True self)) = socket self"
proof (cases fuel)
  case 0
  then show ?thesis by simp
next
  case (Suc f)
  then show ?thesis by (simp only: loop_after_io) simp
qed

text \<open>
  The socket calls of the loop on a non-blocking socket, before any receive: some sends,
  then at most one receive, and nothing after it.
\<close>

lemma loop_calls:
  assumes "socket self = (s, log)"
  shows "\<exists>n. snd (socket (snd (do_handshake_loop fuel E (recording S) False False self)))
                = log @ replicate n CalledSend
            \<or> snd (socket (snd (do_handshake_loop fuel E (recording S) False False self)))
                = log @ replicate n CalledSend @ [CalledRecv]"
  using assms
proof (induction fuel arbitrary: self s log)
  case 0
  then have "snd (socket (snd (do_handshake_loop 0 E (recording S) False False self)))
               = log @ replicate 0 CalledSend"
    by simp
  then show ?case by blast
next
  case (Suc fuel)
  let ?res = "do_handshake_loop (Suc fuel) E (recording S) False False self"
  obtain r b' where step: "Buffer_do_handshake E (buffer self) = (r, b')"
    by (cases "Buffer_do_handshake E (buffer self)")
  have unchanged: "snd (socket (snd ?res)) = log @ replicate 0 CalledSend"
    if "socket (snd ?res) = socket self"
    using that Suc.prems by simp
  show ?case
  proof (cases r)
    case (Inr u)
    with step have "socket (snd ?res) = socket self" by simp
    then show ?thesis using unchanged by blast
  next
    case (Inl x)
    consider (rd) "x = WantReadError" | (wr) "x = WantWriteError"
      | (other) "x \<noteq> WantReadError" "x \<noteq> WantWriteError"
      by blast
    then show ?thesis
    proof cases
      case other
      with step Inl have "socket (snd ?res) = socket self" by simp
      then show ?thesis using unchanged by blast
    next
      case rd
      obtain rr s' where rc: "recv S s 8192 0 = (rr, s')"
        by (cases "recv S s 8192 0")
      have "snd (socket (snd ?res)) = log @ replicate 0 CalledSend @ [CalledRecv]"
      proof (cases rr)
        case (Inl err)
        with step \<open>r = Inl x\<close> rd rc Suc.prems show ?thesis
          by (simp add: recording_simps)
      next
        case (Inr data)
        with step \<open>r = Inl x\<close> rd rc Suc.prems
        have "?res = do_handshake_loop fuel E (recording S) False True
                (self\<lparr>socket := (s', log @ [CalledRecv]),
                      buffer := receive_bytes_from_network b' data\<rparr>)"
          by (simp add: recording_simps)
        then show ?thesis
          by (simp add: loop_after_io_socket)
      qed
      then show ?thesis by blast
    next
      case wr
      obtain rr self' where sc: "send_some (recording S) (self\<lparr>buffer := b'\<rparr>) = (rr, self')"
        by (cases "send_some (recording S) (self\<lparr>buffer := b'\<rparr>)")
      have log': "snd (socket self') = log @ [CalledSend]"
        using send_some_recording [of "self\<lparr>buffer := b'\<rparr>" s log S] sc Suc.prems by simp
      show ?thesis
      proof (cases rr)
        case (Inl err)
        with step \<open>r = Inl x\<close> wr sc have "?res = (Some (Inl (OSError err)), self')"
          by simp
        with log' have "snd (socket (snd ?res)) = log @ replicate (Suc 0) CalledSend"
          by simp
        then show ?thesis by blast
      next
        case (Inr sent)
        with step \<open>r = Inl x\<close> wr sc
        have eq: "?res = do_handshake_loop fuel E (recording S) False False self'"
          by simp
        from log' have "socket self' = (fst (socket self'), log @ [CalledSend])"
          by (metis prod.collapse)
        from Suc.IH [OF this] obtain n where
          "snd (socket (snd (do_handshake_loop fuel E (recording S) False False self')))
             = (log @ [CalledSend]) @ replicate n CalledSend
           \<or> snd (socket (snd (do_handshake_loop fuel E (recording S) False False self')))
             = (log @ [CalledSend]) @ replicate n CalledSend @ [CalledRecv]"
          by blast
        with eq have "snd (socket (snd ?res)) = log @ replicate (Suc n) CalledSend
           \<or> snd (socket (snd ?res)) = log @ replicate (Suc n) CalledSend @ [CalledRecv]"
          by simp
        then show ?thesis by blast
      qed
    qed
  qed
qed

text \<open>
  Claim C3, as amended. For a socket in non-blocking mode (\<^verbatim>\<open>gettimeout()\<close> is not
  \<^verbatim>\<open>None\<close>), a \<^verbatim>\<open>do_handshake\<close> invocation on the socket-shaped wrapper performs at
  most one socket receive call and no socket call after it; the only socket calls before
  it are sends that flush egress. When the buffer wrapper needs input and that one
  receive raises, as a non-blocking socket with no data available does, the socket's
  exception propagates to the caller. When the receive returns, the invocation ends with
  the next step of the buffer wrapper: the handshake completes, or the signal of that
  step (\<^verbatim>\<open>WantReadError\<close> when the engine still needs input and egress is empty)
  propagates to the caller, with no further socket call.
\<close>

theorem nonblocking_handshake_receives_once:
  assumes "gettimeout S s \<noteq> None"
  shows "(\<exists>n. snd (socket (snd (WrappedSocket_do_handshake fuel E (recording S)
                                  \<lparr>socket = (s, log), buffer = b\<rparr>)))
                = log @ replicate n CalledSend
            \<or> snd (socket (snd (WrappedSocket_do_handshake fuel E (recording S)
                                  \<lparr>socket = (s, log), buffer = b\<rparr>)))
                = log @ replicate n CalledSend @ [CalledRecv])
     \<and> (Buffer_do_handshake E b = (Inl WantReadError, b1) \<longrightarrow>
          recv S s 8192 0 = (Inl err, s') \<longrightarrow>
            WrappedSocket_do_handshake (Suc fuel) E S \<lparr>socket = s, buffer = b\<rparr>
              = (Some (Inl (OSError err)), \<lparr>socket = s', buffer = b1\<rparr>))
     \<and> (Buffer_do_handshake E b = (Inl WantReadError, b1) \<longrightarrow>
          recv S s 8192 0 = (Inr data, s') \<longrightarrow>
            WrappedSocket_do_handshake (Suc (Suc fuel)) E S \<lparr>socket = s, buffer = b\<rparr>
              = (Some (fst (Buffer_do_handshake E (receive_bytes_from_network b1 data))),
                 \<lparr>socket = s',
                  buffer = snd (Buffer_do_handshake E (receive_bytes_from_network b1 data))\<rparr>))"
proof -
  have nb: "(gettimeout S s = None) = False"
    using assms by simp
  have A: "\<exists>n. snd (socket (snd (WrappedSocket_do_handshake fuel E (recording S)
                                  \<lparr>socket = (s, log), buffer = b\<rparr>)))
                = log @ replicate n CalledSend
            \<or> snd (socket (snd (WrappedSocket_do_handshake fuel E (recording S)
                                  \<lparr>socket = (s, log), buffer = b\<rparr>)))
                = log @ replicate n CalledSend @ [CalledRecv]"
    using loop_calls [of "\<lparr>socket = (s, log), buffer = b\<rparr>" s log fuel E S]
    by (simp add: WrappedSocket_do_handshake_def recording_simps nb)
  have B: "WrappedSocket_do_handshake (Suc fuel) E S \<lparr>socket = s, buffer = b\<rparr>
              = (Some (Inl (OSError err)), \<lparr>socket = s', buffer = b1\<rparr>)"
    if "Buffer_do_handshake E b = (Inl WantReadError, b1)" "recv S s 8192 0 = (Inl err, s')"
    using that by (simp add: WrappedSocket_do_handshake_def nb)
  have C: "WrappedSocket_do_handshake (Suc (Suc fuel)) E S \<lparr>socket = s, buffer = b\<rparr>
              = (Some (fst (Buffer_do_handshake E (receive_bytes_from_network b1 data))),
                 \<lparr>socket = s',
                  buffer = snd (Buffer_do_handshake E (receive_bytes_from_network b1 data))\<rparr>)"
    if "Buffer_do_handshake E b = (Inl WantReadError, b1)" "recv S s 8192 0 = (Inr data, s')"
  proof -
    have "WrappedSocket_do_handshake (Suc (Suc fuel)) E S \<lparr>socket = s, buffer = b\<rparr>
        = do_handshake_loop (Suc fuel) E S False True
            \<lparr>socket = s', buffer = receive_bytes_from_network b1 data\<rparr>"
      using that by (simp add: WrappedSocket_do_handshake_def nb del: do_handshake_loop.simps(2))
        (simp add: do_handshake_loop.simps(2) [of "Suc fuel"] del: do_handshake_loop.simps(2))
    then show ?thesis
      by (simp only: loop_after_io) simp
  qed
  from A B C show ?thesis by blast
qed

text \<open>
  The amended claim at work: a non-blocking socket delivers two bytes of the five-byte
  record the engine waits for. One receive, then \<^verbatim>\<open>WantReadError\<close>.
\<close>

theorem nonblocking_handshake_receives_once_witness:
  "gettimeout scripted
     \<lparr>timeout = Some 0, incoming = [Inr [1, 2]], accepts = [], wire = [], closed = False\<rparr>
     \<noteq> None
   \<and> WrappedSocket_do_handshake (Suc (Suc 0)) record_engine scripted
       \<lparr>socket = \<lparr>timeout = Some 0, incoming = [Inr [1, 2]], accepts = [], wire = [],
                  closed = False\<rparr>,
        buffer = \<lparr>st_context = [], receive_buffer = [], send_buffer = []\<rparr>\<rparr>
     = (Some (Inl WantReadError),
        \<lparr>socket = \<lparr>timeout = Some 0, incoming = [], accepts = [], wire = [], closed = False\<rparr>,
         buffer = \<lparr>st_context = [1, 2], receive_buffer = [], send_buffer = []\<rparr>\<rparr>)"
proof -
  let ?s = "\<lparr>timeout = Some 0, incoming = [Inr [1, 2]], accepts = [], wire = ([] :: bytes),
             closed = False\<rparr>"
  let ?s' = "\<lparr>timeout = Some 0, incoming = [], accepts = [], wire = ([] :: bytes),
              closed = False\<rparr>"
  let ?b = "\<lparr>st_context = ([] :: bytes), receive_buffer = [], send_buffer = []\<rparr>"
  have nb: "gettimeout scripted ?s \<noteq> None"
    by (simp add: scripted_def)
  have h1: "Buffer_do_handshake record_engine ?b = (Inl WantReadError, ?b)"
    by (simp add: Buffer_do_handshake_def call_engine_def record_engine_def need_record_short
          would_block_signal_def)
  have h2: "recv scripted ?s 8192 0 = (Inr [1, 2], ?s')"
    by (simp add: scripted_def)
  have h3: "Buffer_do_handshake record_engine (receive_bytes_from_network ?b [1, 2])
          = (Inl WantReadError, \<lparr>st_context = [1, 2], receive_buffer = [], send_buffer = []\<rparr>)"
    by (simp add: Buffer_do_handshake_def call_engine_def record_engine_def need_record_short
          would_block_signal_def receive_bytes_from_network_def)
  from nonblocking_handshake_receives_once [OF nb, of 0 record_engine "[]" ?b ?b _ ?s' "[1, 2]"]
    h1 h2
  have "WrappedSocket_do_handshake (Suc (Suc 0)) record_engine scripted \<lparr>socket = ?s, buffer = ?b\<rparr>
      = (Some (fst (Buffer_do_handshake record_engine (receive_bytes_from_network ?b [1, 2]))),
         \<lparr>socket = ?s',
          buffer = snd (Buffer_do_handshake record_engine (receive_bytes_from_network ?b [1, 2]))\<rparr>)"
    by blast
  with nb show ?thesis
    by (simp only: h3 fst_conv snd_conv) simp
qed

text \<open>
  Claim C3 as it was stated fails in its own scenario: ingress is empty, the socket is
  non-blocking and has no data, so its \<^verbatim>\<open>recv\<close> raises \<^verbatim>\<open>BlockingIOError\<close>. The
  wrapper makes that one receive call, and what reaches the caller is the socket's
  exception ("If those attempts to read raise, they raise"), not \<^verbatim>\<open>WantReadError\<close>.
\<close>

theorem nonblocking_recv_raises_counterexample:
  "gettimeout (recording scripted)
     (\<lparr>timeout = Some 0, incoming = [], accepts = [], wire = [], closed = False\<rparr>, []) = Some 0
   \<and> WrappedSocket_do_handshake (Suc (Suc 0)) stalled_engine (recording scripted)
       \<lparr>socket = (\<lparr>timeout = Some 0, incoming = [], accepts = [], wire = [], closed = False\<rparr>, []),
        buffer = \<lparr>st_context = (), receive_buffer = [], send_buffer = []\<rparr>\<rparr>
     = (Some (Inl (OSError BlockingIOError)),
        \<lparr>socket = (\<lparr>timeout = Some 0, incoming = [], accepts = [], wire = [], closed = False\<rparr>,
                   [CalledRecv]),
         buffer = \<lparr>st_context = (), receive_buffer = [], send_buffer = []\<rparr>\<rparr>)
   \<and> OSError BlockingIOError \<noteq> WantReadError"
proof -
  have 1: "Buffer_do_handshake stalled_engine \<lparr>st_context = (), receive_buffer = [], send_buffer = []\<rparr>
     = (Inl WantReadError, \<lparr>st_context = (), receive_buffer = [], send_buffer = []\<rparr>)"
    by (simp add: Buffer_do_handshake_def call_engine_def stalled_engine_def would_block_signal_def)
  have 2: "recv scripted \<lparr>timeout = Some 0, incoming = [], accepts = [], wire = [], closed = False\<rparr>
             8192 0
     = (Inl BlockingIOError,
        \<lparr>timeout = Some 0, incoming = [], accepts = [], wire = [], closed = False\<rparr>)"
    by (simp add: scripted_def)
  have 3: "gettimeout scripted
             \<lparr>timeout = Some 0, incoming = [], accepts = [], wire = [], closed = False\<rparr> = Some 0"
    by (simp add: scripted_def)
  show ?thesis
    by (simp add: WrappedSocket_do_handshake_def recording_simps 1 2 3)
qed


end
